theory Spec2Isabelle
  imports Main
begin

section \<open>The filesystem manager of the browser's background process\<close>

text \<open>
  A shallow embedding of the module that owns the root drive and the drive registry:
  \<^verbatim>\<open>listDrives\<close>, \<^verbatim>\<open>getDriveConfig\<close>, \<^verbatim>\<open>configDrive\<close>, \<^verbatim>\<open>removeDrive\<close>,
  \<^verbatim>\<open>getAvailableName\<close>, \<^verbatim>\<open>stat\<close>, \<^verbatim>\<open>ensureDir\<close>, \<^verbatim>\<open>ensureMount\<close> and
  \<^verbatim>\<open>ensureUnmount\<close>. The module's variables (\<^verbatim>\<open>rootDrive\<close>, \<^verbatim>\<open>drives\<close>) and
  everything the module changes outside itself (the root drive's files, the replication
  settings of loaded drives, the named lock, the log) are fields of one state record that
  every operation takes and returns. The operations are modelled as they run once
  \<^verbatim>\<open>setup\<close> has loaded the root drive, one call at a time.

  JavaScript objects are shared by reference: the entries of \<^verbatim>\<open>drives\<close> and the
  \<^verbatim>\<open>forkOf\<close> objects they point to live in two stores, and arrays hold addresses.
\<close>

subsection \<open>Values and objects\<close>

type_synonym url = string
type_synonym path = string
type_synonym ref = nat

text \<open>The JavaScript values a caller can pass as \<^verbatim>\<open>opts.forkOf\<close> and a manifest can hold
  as \<^verbatim>\<open>forkOf\<close>: an object is the address of a \<^verbatim>\<open>forkOf\<close> object.\<close>

datatype jsval = JUndefined | JNull | JBool bool | JNumber int | JString string | JObject ref

fun truthy :: "jsval \<Rightarrow> bool" where
  "truthy JUndefined = False"
| "truthy JNull = False"
| "truthy (JBool b) = b"
| "truthy (JNumber n) = (n \<noteq> 0)"
| "truthy (JString s) = (s \<noteq> [])"
| "truthy (JObject r) = True"

fun typeof :: "jsval \<Rightarrow> string" where
  "typeof JUndefined = ''undefined''"
| "typeof JNull = ''object''"
| "typeof (JBool b) = ''boolean''"
| "typeof (JNumber n) = ''number''"
| "typeof (JString s) = ''string''"
| "typeof (JObject r) = ''object''"

text \<open>\<^verbatim>\<open>{key, label}\<close>: both properties may be undefined.\<close>

record ForkOf =
  fork_key :: "string option"
  label :: "string option"

text \<open>\<^verbatim>\<open>DriveConfig\<close>: \<^verbatim>\<open>{key, forkOf?}\<close>; \<^verbatim>\<open>forkOf\<close> is the address of a
  \<^verbatim>\<open>ForkOf\<close> object, or absent.\<close>

record DriveConfig =
  key :: string
  forkOf :: "ref option"

text \<open>A JavaScript string used as a condition: undefined and the empty string are falsy.\<close>

fun truthy_str :: "string option \<Rightarrow> bool" where
  "truthy_str None = False"
| "truthy_str (Some s) = (s \<noteq> [])"

subsection \<open>The collaborators\<close>

text \<open>The manifest of a drive (\<^verbatim>\<open>index.json\<close>), of which the module reads \<^verbatim>\<open>forkOf\<close>.\<close>

record Manifest =
  manifest_forkOf :: jsval

text \<open>A drive handle as \<^verbatim>\<open>hyper.drives.getOrLoadDrive\<close> returns it: the drive's
  identity (under which its replication settings are kept), \<^verbatim>\<open>drive.writable\<close>, and the
  result of \<^verbatim>\<open>drive.pda.readManifest()\<close> (\<open>None\<close>: the promise rejects).\<close>

record Drive =
  drive_id :: string
  writable :: bool
  readManifest :: "Manifest option"

text \<open>The outcome of
  \<^verbatim>\<open>modals.create(BrowserWindow.getFocusedWindow().webContents, 'prompt', {message})\<close>:
  no window has the focus (\<^verbatim>\<open>getFocusedWindow()\<close> is null and reading \<^verbatim>\<open>webContents\<close>
  throws), the promise rejects or resolves to a falsy value, or it resolves to an object with
  the given \<^verbatim>\<open>value\<close> (\<open>None\<close>: undefined).\<close>

datatype prompt_result = NoFocusedWindow | Declined | Answer "string option"

text \<open>What an entry at a path of the root drive looks like to \<^verbatim>\<open>pda.stat\<close>:
  \<^verbatim>\<open>st.isDirectory()\<close> and \<^verbatim>\<open>st.mount\<close> (the hex form of \<^verbatim>\<open>st.mount.key\<close>).\<close>

record Stat =
  isDirectory :: bool
  mount :: "string option"

text \<open>The calls on the root drive that may fail.\<close>

datatype call =
    CallStat path
  | CallMkdir path
  | CallMount path string
  | CallUnmount path
  | CallWriteFile path

text \<open>The environment of a call: URL resolution (\<open>None\<close>: \<^verbatim>\<open>fromURLToKey\<close> throws),
  drive loading (\<open>None\<close>: \<^verbatim>\<open>getOrLoadDrive\<close> throws), the prompt's outcome, which calls
  on the root drive fail, and Node's \<^verbatim>\<open>path.join\<close>.\<close>

record env =
  fromURLToKey :: "url \<Rightarrow> string option"
  getOrLoadDrive :: "url \<Rightarrow> Drive option"
  prompt :: prompt_result
  call_fails :: "call \<Rightarrow> bool"
  joinPath :: "path \<Rightarrow> string \<Rightarrow> path"

datatype error = ResolveError url | LoadError url | TypeError | IOError call | ExhaustionError string

text \<open>How a call ends: it runs to its last statement, it leaves through a \<^verbatim>\<open>return\<close>
  in the middle, it throws, or it never gets the lock.\<close>

datatype outcome = Completed | ReturnedEarly | Threw error | Blocked

subsection \<open>The state\<close>

datatype event =
    LockAcquire string
  | LockRelease string
  | ConfigureNetwork string bool bool
  | Prompt string
  | WriteFile path
  | Mkdir path
  | MountCall path string
  | UnmountCall path
  | LogInfo string
  | LogError string

text \<open>The serialised registry: what \<^verbatim>\<open>JSON.stringify({drives}, null, 2)\<close> writes, as the
  tree of values it prints (one pair per entry, in order).\<close>

type_synonym document = "(string \<times> ForkOf option) list"

record state =
  rootDrive_url :: url
  drives :: "ref list"
  cfg_heap :: "ref \<Rightarrow> DriveConfig"
  cfg_next :: ref
  fork_heap :: "ref \<Rightarrow> ForkOf"
  fork_next :: ref
  drives_json :: "document option"
  tree :: "path \<Rightarrow> Stat option"
  network :: "string \<Rightarrow> (bool \<times> bool) option"
  lock_held :: "string \<Rightarrow> bool"
  trace :: "event list"

definition emit :: "event \<Rightarrow> state \<Rightarrow> state" where
  "emit e s = s\<lparr>trace := trace s @ [e]\<rparr>"

text \<open>The events a call added to the trace.\<close>

definition issued :: "state \<Rightarrow> state \<Rightarrow> event list" where
  "issued s s' = drop (length (trace s)) (trace s')"

text \<open>Object creation: a new object gets the next free address of its store.\<close>

definition new_cfg :: "DriveConfig \<Rightarrow> state \<Rightarrow> ref \<times> state" where
  "new_cfg c s =
     (cfg_next s, s\<lparr>cfg_heap := (cfg_heap s)(cfg_next s := c), cfg_next := Suc (cfg_next s)\<rparr>)"

definition new_fork :: "ForkOf \<Rightarrow> state \<Rightarrow> ref \<times> state" where
  "new_fork f s =
     (fork_next s, s\<lparr>fork_heap := (fork_heap s)(fork_next s := f), fork_next := Suc (fork_next s)\<rparr>)"

text \<open>Every address the registry holds is allocated.\<close>

definition well_formed :: "state \<Rightarrow> bool" where
  "well_formed s = (list_all (\<lambda>a. a < cfg_next s \<and>
             (case forkOf (cfg_heap s a) of None \<Rightarrow> True | Some f \<Rightarrow> f < fork_next s)) (drives s))"

text \<open>Modelled from the spec: the lock of \<^verbatim>\<open>lib/lock\<close>, which is not among the sources.
  The RegistryLock is "a named mutual-exclusion primitive": \<^verbatim>\<open>lock(name)\<close> resolves
  to a release function once nobody holds the name, and calling it frees the name.\<close>

definition lock :: "string \<Rightarrow> state \<Rightarrow> state option" where
  "lock name s =
     (if lock_held s name then None
      else Some (emit (LockAcquire name) (s\<lparr>lock_held := (lock_held s)(name := True)\<rparr>)))"

text \<open>Modelled from the spec: the release function that \<^verbatim>\<open>lock(name)\<close> of \<^verbatim>\<open>lib/lock\<close>
  resolves to.\<close>

definition release :: "string \<Rightarrow> state \<Rightarrow> state" where
  "release name s = emit (LockRelease name) (s\<lparr>lock_held := (lock_held s)(name := False)\<rparr>)"

subsection \<open>Reading the registry\<close>

text \<open>\<^verbatim>\<open>listDrives\<close>: \<^verbatim>\<open>drives.slice()\<close> is a new array of the same addresses; with
  \<^verbatim>\<open>includeSystem\<close> a new object is put in front of it.\<close>

definition listDrives :: "bool \<Rightarrow> state \<Rightarrow> ref list \<times> state" where
  "listDrives includeSystem s =
     (let d = drives s in
      if includeSystem then
        (let (a, s1) = new_cfg \<lparr>key = drop (length ''hyper://'') (rootDrive_url s), forkOf = None\<rparr> s
         in (a # d, s1))
      else (d, s))"

text \<open>\<^verbatim>\<open>getDriveConfig\<close>: the first entry of \<^verbatim>\<open>listDrives()\<close> with the key, or undefined.\<close>

definition getDriveConfig :: "string \<Rightarrow> state \<Rightarrow> ref option" where
  "getDriveConfig k s = find (\<lambda>d. key (cfg_heap s d) = k) (fst (listDrives False s))"

subsection \<open>Changing the registry\<close>

text \<open>\<^verbatim>\<open>Array.prototype.findIndex\<close> (\<open>None\<close> for -1) and \<^verbatim>\<open>splice(i, 1)\<close>.\<close>

fun findIndex :: "('a \<Rightarrow> bool) \<Rightarrow> 'a list \<Rightarrow> nat option" where
  "findIndex P [] = None"
| "findIndex P (x # xs) = (if P x then Some 0 else map_option Suc (findIndex P xs))"

definition splice1 :: "nat \<Rightarrow> 'a list \<Rightarrow> 'a list" where
  "splice1 i xs = take i xs @ drop (Suc i) xs"

definition stringify_drives :: "state \<Rightarrow> document" where
  "stringify_drives s =
     map (\<lambda>d. (key (cfg_heap s d), map_option (fork_heap s) (forkOf (cfg_heap s d)))) (drives s)"

text \<open>\<^verbatim>\<open>await rootDrive.pda.writeFile('/drives.json', JSON.stringify({drives}, null, 2))\<close>,
  the last statement of both \<^verbatim>\<open>configDrive\<close> and \<^verbatim>\<open>removeDrive\<close>.\<close>

definition write_drives_json :: "env \<Rightarrow> state \<Rightarrow> outcome \<times> state" where
  "write_drives_json env s =
     (let s1 = emit (WriteFile ''/drives.json'') s in
      if call_fails env (CallWriteFile ''/drives.json'')
      then (Threw (IOError (CallWriteFile ''/drives.json'')), s1)
      else (Completed, s1\<lparr>drives_json := Some (stringify_drives s)\<rparr>))"

text \<open>\<^verbatim>\<open>drive.session.drive.configureNetwork({announce, lookup})\<close>.\<close>

definition configureNetwork :: "Drive \<Rightarrow> bool \<Rightarrow> bool \<Rightarrow> state \<Rightarrow> state" where
  "configureNetwork drive announce lookup s =
     emit (ConfigureNetwork (drive_id drive) announce lookup)
       (s\<lparr>network := (network s)(drive_id drive \<mapsto> (announce, lookup))\<rparr>)"

text \<open>The string and the object behind a value; read only under a \<^verbatim>\<open>typeof\<close> test.\<close>

fun str_of :: "jsval \<Rightarrow> string" where
  "str_of (JString s) = s"
| "str_of _ = []"

fun ref_of :: "jsval \<Rightarrow> ref" where
  "ref_of (JObject r) = r"
| "ref_of _ = 0"

definition set_forkOf :: "ref \<Rightarrow> ref option \<Rightarrow> state \<Rightarrow> state" where
  "set_forkOf cfg f s = s\<lparr>cfg_heap := (cfg_heap s)(cfg := (cfg_heap s cfg)\<lparr>forkOf := f\<rparr>)\<rparr>"

definition prompt_message :: string where
  "prompt_message = ''Choose a label to save this fork under (e.g. \"dev\" or \"bobs-changes\")''"

text \<open>Lines 183 to 189 of \<^verbatim>\<open>configDrive\<close>: the parent of a fork is looked up under
  \<^verbatim>\<open>driveCfg.forkOf.key\<close> (which line 175 has just set to \<open>pk\<close>) and pushed as a bare
  \<^verbatim>\<open>{key}\<close> when it is missing; then the new entry is pushed and the document written.\<close>

definition push_parent :: "string \<Rightarrow> state \<Rightarrow> state" where
  "push_parent pk s =
     (case find (\<lambda>d. key (cfg_heap s d) = pk) (drives s) of
        Some parentDriveCfg \<Rightarrow> s
      | None \<Rightarrow>
          (let (p, s1) = new_cfg \<lparr>key = pk, forkOf = None\<rparr> s
           in s1\<lparr>drives := drives s1 @ [p]\<rparr>))"

definition push_cfg :: "env \<Rightarrow> ref \<Rightarrow> state \<Rightarrow> outcome \<times> state" where
  "push_cfg env cfg s = write_drives_json env (s\<lparr>drives := drives s @ [cfg]\<rparr>)"

text \<open>Line 174: the entry's \<^verbatim>\<open>forkOf\<close> object, created empty when the entry has none.\<close>

definition fork_object :: "ref \<Rightarrow> state \<Rightarrow> ref \<times> state" where
  "fork_object cfg s =
     (case forkOf (cfg_heap s cfg) of
        Some f \<Rightarrow> (f, s)
      | None \<Rightarrow>
          (let (f, s1) = new_fork \<lparr>fork_key = None, label = None\<rparr> s
           in (f, set_forkOf cfg (Some f) s1)))"

text \<open>The assignments to \<^verbatim>\<open>driveCfg.forkOf.key\<close> (line 175) and
  \<^verbatim>\<open>driveCfg.forkOf.label\<close> (line 180): they change the object in place.\<close>

definition set_fork_key :: "ref \<Rightarrow> string \<Rightarrow> state \<Rightarrow> state" where
  "set_fork_key f pk s = s\<lparr>fork_heap := (fork_heap s)(f := (fork_heap s f)\<lparr>fork_key := Some pk\<rparr>)\<rparr>"

definition set_label :: "ref \<Rightarrow> string option \<Rightarrow> state \<Rightarrow> state" where
  "set_label f v s = s\<lparr>fork_heap := (fork_heap s)(f := (fork_heap s f)\<lparr>label := v\<rparr>)\<rparr>"

text \<open>Lines 173 to 189: the manifest names a fork parent \<open>pu\<close>.\<close>

definition configDrive_fork :: "env \<Rightarrow> ref \<Rightarrow> url \<Rightarrow> state \<Rightarrow> outcome \<times> state" where
  "configDrive_fork env cfg pu s =
     (let (f, s1) = fork_object cfg s
      in case fromURLToKey env pu of
           None \<Rightarrow> (Threw (ResolveError pu), s1)
         | Some pk \<Rightarrow>
             (let s2 = set_fork_key f pk s1
              in if \<not> truthy_str (label (fork_heap s2 f)) then
                   (case prompt env of
                      NoFocusedWindow \<Rightarrow> (Threw TypeError, s2)
                    | Declined \<Rightarrow> (ReturnedEarly, emit (Prompt prompt_message) s2)
                    | Answer v \<Rightarrow>
                        (let s3 = emit (Prompt prompt_message) s2 in
                         if \<not> truthy_str v then (ReturnedEarly, s3)
                         else push_cfg env cfg (push_parent pk (set_label f v s3))))
                 else push_cfg env cfg (push_parent pk s2)))"

text \<open>Lines 156 to 167: the new entry \<^verbatim>\<open>{key}\<close>, the caller's \<^verbatim>\<open>forkOf\<close> attached to
  it when it is an object, and the seeding of a drive that is not writable.\<close>

definition new_entry :: "Drive \<Rightarrow> string \<Rightarrow> jsval \<Rightarrow> state \<Rightarrow> ref \<times> state" where
  "new_entry drive k forkOfArg s =
     (let (cfg, s1) = new_cfg \<lparr>key = k, forkOf = None\<rparr> s;
          s2 = (if truthy forkOfArg \<and> typeof forkOfArg = ''object''
                then set_forkOf cfg (Some (ref_of forkOfArg)) s1 else s1);
          s3 = (if \<not> writable drive then configureNetwork drive True True s2 else s2)
      in (cfg, s3))"

text \<open>Lines 153 to 189: no entry has the key. A manifest that could not be read is
  \<^verbatim>\<open>undefined\<close> (the handler \<^verbatim>\<open>_ => {}\<close> returns nothing), and reading
  \<^verbatim>\<open>manifest.forkOf\<close> of it throws.\<close>

definition configDrive_new :: "env \<Rightarrow> url \<Rightarrow> string \<Rightarrow> jsval \<Rightarrow> state \<Rightarrow> outcome \<times> state" where
  "configDrive_new env u k forkOfArg s =
     (case getOrLoadDrive env u of
        None \<Rightarrow> (Threw (LoadError u), s)
      | Some drive \<Rightarrow>
          (let manifest = readManifest drive;
               (cfg, s1) = new_entry drive k forkOfArg s
           in case manifest of
                None \<Rightarrow> (Threw TypeError, s1)
              | Some m \<Rightarrow>
                  if truthy (manifest_forkOf m) \<and> typeof (manifest_forkOf m) = ''string''
                  then configDrive_fork env cfg (str_of (manifest_forkOf m)) s1
                  else push_cfg env cfg s1))"

text \<open>Lines 191 to 197: an entry has the key.\<close>

definition configDrive_existing :: "ref \<Rightarrow> jsval \<Rightarrow> state \<Rightarrow> state" where
  "configDrive_existing cfg forkOfArg s =
     (if typeof forkOfArg \<noteq> ''undefined'' then
        (if truthy forkOfArg \<and> typeof forkOfArg = ''object''
         then set_forkOf cfg (Some (ref_of forkOfArg)) s
         else set_forkOf cfg None s)
      else s)"

definition configDrive_body :: "env \<Rightarrow> url \<Rightarrow> jsval \<Rightarrow> state \<Rightarrow> outcome \<times> state" where
  "configDrive_body env u forkOfArg s =
     (case fromURLToKey env u of
        None \<Rightarrow> (Threw (ResolveError u), s)
      | Some k \<Rightarrow>
          (case find (\<lambda>d. key (cfg_heap s d) = k) (drives s) of
             None \<Rightarrow> configDrive_new env u k forkOfArg s
           | Some driveCfg \<Rightarrow> write_drives_json env (configDrive_existing driveCfg forkOfArg s)))"

text \<open>\<^verbatim>\<open>configDrive(url, {forkOf})\<close>: the body runs under the lock, and \<^verbatim>\<open>finally\<close>
  releases it however the body ends.\<close>

definition configDrive :: "env \<Rightarrow> url \<Rightarrow> jsval \<Rightarrow> state \<Rightarrow> outcome \<times> state" where
  "configDrive env u forkOfArg s =
     (case lock ''filesystem:drives'' s of
        None \<Rightarrow> (Blocked, s)
      | Some s1 \<Rightarrow>
          (let (r, s2) = configDrive_body env u forkOfArg s1
           in (r, release ''filesystem:drives'' s2)))"

definition removeDrive_body :: "env \<Rightarrow> url \<Rightarrow> state \<Rightarrow> outcome \<times> state" where
  "removeDrive_body env u s =
     (case fromURLToKey env u of
        None \<Rightarrow> (Threw (ResolveError u), s)
      | Some k \<Rightarrow>
          (case findIndex (\<lambda>d. key (cfg_heap s d) = k) (drives s) of
             None \<Rightarrow> (ReturnedEarly, s)
           | Some driveIndex \<Rightarrow>
               (case getOrLoadDrive env u of
                  None \<Rightarrow> (Threw (LoadError u), s)
                | Some drive \<Rightarrow>
                    (let s1 = (if \<not> writable drive then configureNetwork drive False True s else s)
                     in write_drives_json env (s1\<lparr>drives := splice1 driveIndex (drives s1)\<rparr>)))))"

definition removeDrive :: "env \<Rightarrow> url \<Rightarrow> state \<Rightarrow> outcome \<times> state" where
  "removeDrive env u s =
     (case lock ''filesystem:drives'' s of
        None \<Rightarrow> (Blocked, s)
      | Some s1 \<Rightarrow>
          (let (r, s2) = removeDrive_body env u s1
           in (r, release ''filesystem:drives'' s2)))"

subsection \<open>The reconcilers\<close>

text \<open>Modelled from the spec: the drive handle's \<^verbatim>\<open>stat\<close>, \<^verbatim>\<open>mkdir\<close>, \<^verbatim>\<open>mount\<close> and
  \<^verbatim>\<open>unmount\<close>, which belong to the DriveStore and are not among the sources
  ("\<^verbatim>\<open>.stat(path) -> {isDirectory(), mount?}\<close>, \<^verbatim>\<open>.mkdir(path)\<close>,
  \<^verbatim>\<open>.mount(path, key)\<close>, \<^verbatim>\<open>.unmount(path)\<close>"). A call fails when the environment says so
  and then changes nothing; \<^verbatim>\<open>stat\<close> also fails when nothing is at the path. Otherwise
  \<^verbatim>\<open>mkdir\<close> puts a directory at the path, \<^verbatim>\<open>mount\<close> a mount to the key, and
  \<^verbatim>\<open>unmount\<close> removes the entry.\<close>

definition pda_stat :: "env \<Rightarrow> state \<Rightarrow> path \<Rightarrow> error + Stat" where
  "pda_stat env s p =
     (if call_fails env (CallStat p) then Inl (IOError (CallStat p))
      else case tree s p of None \<Rightarrow> Inl (IOError (CallStat p)) | Some st \<Rightarrow> Inr st)"


text \<open>Modelled from the spec: \<^verbatim>\<open>rootDrive.pda.mount(path, key)\<close> of the DriveStore; what
  it creates is a mount to the key, which \<^verbatim>\<open>stat\<close> shows as a directory.\<close>

definition pda_mount :: "env \<Rightarrow> path \<Rightarrow> string \<Rightarrow> state \<Rightarrow> error option \<times> state" where
  "pda_mount env p k s =
     (let s1 = emit (MountCall p k) s in
      if call_fails env (CallMount p k) then (Some (IOError (CallMount p k)), s1)
      else (None, s1\<lparr>tree := (tree s1)(p \<mapsto> \<lparr>isDirectory = True, mount = Some k\<rparr>)\<rparr>))"

text \<open>Modelled from the spec: \<^verbatim>\<open>rootDrive.pda.unmount(path)\<close> of the DriveStore.\<close>

definition pda_unmount :: "env \<Rightarrow> path \<Rightarrow> state \<Rightarrow> error option \<times> state" where
  "pda_unmount env p s =
     (let s1 = emit (UnmountCall p) s in
      if call_fails env (CallUnmount p) then (Some (IOError (CallUnmount p)), s1)
      else (None, s1\<lparr>tree := (tree s1)(p := None)\<rparr>))"

text \<open>The module's own \<^verbatim>\<open>stat\<close>: null when \<^verbatim>\<open>rootDrive.pda.stat\<close> throws.\<close>

definition stat :: "env \<Rightarrow> state \<Rightarrow> path \<Rightarrow> Stat option" where
  "stat env s p = (case pda_stat env s p of Inl e \<Rightarrow> None | Inr st \<Rightarrow> Some st)"


definition ensureMount :: "env \<Rightarrow> path \<Rightarrow> url \<Rightarrow> state \<Rightarrow> state" where
  "ensureMount env p u s =
     (let st = stat env s p in
      case fromURLToKey env u of
        None \<Rightarrow> emit (LogError ''Filesystem failed to mount drive'') s
      | Some k \<Rightarrow>
          (case st of
             None \<Rightarrow>
               (case pda_mount env p k (emit (LogInfo (''Adding mount '' @ p)) s) of
                  (None, s1) \<Rightarrow> s1
                | (Some e, s1) \<Rightarrow> emit (LogError ''Filesystem failed to mount drive'') s1)
           | Some st \<Rightarrow>
               (case mount st of
                  Some oldKey \<Rightarrow>
                    if oldKey \<noteq> k then
                      (case pda_unmount env p (emit (LogInfo ''Reassigning mount'') s) of
                         (Some e, s1) \<Rightarrow> emit (LogError ''Filesystem failed to mount drive'') s1
                       | (None, s1) \<Rightarrow>
                           (case pda_mount env p k s1 of
                              (None, s2) \<Rightarrow> s2
                            | (Some e, s2) \<Rightarrow> emit (LogError ''Filesystem failed to mount drive'') s2))
                    else s
                | None \<Rightarrow>
                    emit (LogError
                      ''Warning! Filesystem expects a mount but an unexpected file exists at this location.'') s)))"


text \<open>The calls that change the root drive's tree, among the events of a call.\<close>

fun is_tree_call :: "event \<Rightarrow> bool" where
  "is_tree_call (Mkdir p) = True"
| "is_tree_call (MountCall p k) = True"
| "is_tree_call (UnmountCall p) = True"
| "is_tree_call e = False"

subsection \<open>Available names\<close>








subsection \<open>Notions used in the statements\<close>

text \<open>The prompt was declined or gave an empty value: the outcomes for which line 179
  returns.\<close>

fun declined :: "prompt_result \<Rightarrow> bool" where
  "declined NoFocusedWindow = False"
| "declined Declined = True"
| "declined (Answer v) = (\<not> truthy_str v)"

text \<open>The keys of the registry's entries, in order.\<close>

definition keys :: "state \<Rightarrow> string list" where
  "keys s = map (\<lambda>d. key (cfg_heap s d)) (drives s)"




text \<open>From one state to a later one, no allocated entry object has changed its key.\<close>

definition keeps_keys :: "state \<Rightarrow> state \<Rightarrow> bool" where
  "keeps_keys s s' =
     (cfg_next s \<le> cfg_next s' \<and> (\<forall>a<cfg_next s. key (cfg_heap s' a) = key (cfg_heap s a)))"

text \<open>The registry is well formed and the entry object \<open>c\<close>, which is about to be pushed,
  is allocated together with its \<^verbatim>\<open>forkOf\<close> object.\<close>

definition pending_ok :: "ref \<Rightarrow> state \<Rightarrow> bool" where
  "pending_ok c s =
     (well_formed s \<and> c < cfg_next s
      \<and> (case forkOf (cfg_heap s c) of None \<Rightarrow> True | Some f \<Rightarrow> f < fork_next s))"

subsection \<open>Example environments and states\<close>

text \<open>An environment in which no URL resolves and no call fails, with \<^verbatim>\<open>path.join\<close>
  on a directory and a plain name; and a state with an empty registry and an empty tree.\<close>

definition env0 :: env where
  "env0 = \<lparr>fromURLToKey = (\<lambda>u. None), getOrLoadDrive = (\<lambda>u. None), prompt = Declined,
           call_fails = (\<lambda>c. False), joinPath = (\<lambda>d n. d @ ''/'' @ n)\<rparr>"

definition state0 :: state where
  "state0 = \<lparr>rootDrive_url = ''hyper://00ff'', drives = [],
     cfg_heap = (\<lambda>a. \<lparr>key = [], forkOf = None\<rparr>), cfg_next = 0,
     fork_heap = (\<lambda>a. \<lparr>fork_key = None, label = None\<rparr>), fork_next = 0,
     drives_json = None, tree = Map.empty, network = Map.empty,
     lock_held = (\<lambda>n. False), trace = []\<rparr>"

definition file_stat :: Stat where
  "file_stat = \<lparr>isDirectory = False, mount = None\<rparr>"

text \<open>A tree that holds \<^verbatim>\<open>report\<close>, \<^verbatim>\<open>report-2\<close> and \<^verbatim>\<open>report-3\<close> under \<^verbatim>\<open>/dir\<close>;
  one that holds \<^verbatim>\<open>notes.txt\<close>; and one with an entry at every path.\<close>

definition reports :: state where
  "reports = state0\<lparr>tree := [''/dir/report'' \<mapsto> file_stat, ''/dir/report-2'' \<mapsto> file_stat,
                              ''/dir/report-3'' \<mapsto> file_stat]\<rparr>"



text \<open>An environment that resolves two URLs, and a tree with a mount at \<^verbatim>\<open>/m\<close>.\<close>

definition env1 :: env where
  "env1 = env0\<lparr>fromURLToKey := [''hyper://aa'' \<mapsto> ''aa'', ''hyper://bb'' \<mapsto> ''bb'']\<rparr>"

definition mounted_aa :: state where
  "mounted_aa = state0\<lparr>tree := [''/m'' \<mapsto> \<lparr>isDirectory = True, mount = Some ''aa''\<rparr>]\<rparr>"

text \<open>The same environment with one call of the drive that fails.\<close>

definition failing :: "call \<Rightarrow> env" where
  "failing c = env1\<lparr>call_fails := (\<lambda>x. x = c)\<rparr>"

text \<open>Five drives: a fork of \<^verbatim>\<open>hyper://pp\<close> that is not writable, a writable drive whose
  manifest names no parent, a drive whose manifest cannot be read, a drive whose manifest
  names the drive itself as its parent, and a fork of \<^verbatim>\<open>hyper://aa\<close>. In \<open>env2\<close> the prompt
  is declined, in \<open>env3\<close> it is answered with \<^verbatim>\<open>dev\<close>.\<close>

definition fork_drive :: Drive where
  "fork_drive = \<lparr>drive_id = ''aa'', writable = False,
     readManifest = Some \<lparr>manifest_forkOf = JString ''hyper://pp''\<rparr>\<rparr>"

definition plain_drive :: Drive where
  "plain_drive = \<lparr>drive_id = ''bb'', writable = True,
     readManifest = Some \<lparr>manifest_forkOf = JUndefined\<rparr>\<rparr>"

definition broken_drive :: Drive where
  "broken_drive = \<lparr>drive_id = ''cc'', writable = False, readManifest = None\<rparr>"

definition self_drive :: Drive where
  "self_drive = \<lparr>drive_id = ''dd'', writable = True,
     readManifest = Some \<lparr>manifest_forkOf = JString ''hyper://dd''\<rparr>\<rparr>"

definition second_fork :: Drive where
  "second_fork = \<lparr>drive_id = ''ee'', writable = True,
     readManifest = Some \<lparr>manifest_forkOf = JString ''hyper://aa''\<rparr>\<rparr>"

definition env2 :: env where
  "env2 = \<lparr>fromURLToKey = [''hyper://aa'' \<mapsto> ''aa'', ''hyper://bb'' \<mapsto> ''bb'',
             ''hyper://cc'' \<mapsto> ''cc'', ''hyper://dd'' \<mapsto> ''dd'', ''hyper://ee'' \<mapsto> ''ee'',
             ''hyper://pp'' \<mapsto> ''pp''],
           getOrLoadDrive = [''hyper://aa'' \<mapsto> fork_drive, ''hyper://bb'' \<mapsto> plain_drive,
             ''hyper://cc'' \<mapsto> broken_drive, ''hyper://dd'' \<mapsto> self_drive,
             ''hyper://ee'' \<mapsto> second_fork],
           prompt = Declined, call_fails = (\<lambda>c. False), joinPath = (\<lambda>d n. d @ ''/'' @ n)\<rparr>"

definition env3 :: env where
  "env3 = env2\<lparr>prompt := Answer (Some ''dev'')\<rparr>"



definition registered_dd :: state where
  "registered_dd = snd (configDrive env3 ''hyper://dd'' JUndefined state0)"





section \<open>Lemmas about the steps of the operations\<close>

subsection \<open>The state after an event\<close>

lemma emit_fields [simp]:
  "trace (emit e s) = trace s @ [e]"
  "tree (emit e s) = tree s"
  "drives (emit e s) = drives s"
  "cfg_heap (emit e s) = cfg_heap s"
  "cfg_next (emit e s) = cfg_next s"
  "fork_heap (emit e s) = fork_heap s"
  "fork_next (emit e s) = fork_next s"
  "drives_json (emit e s) = drives_json s"
  "network (emit e s) = network s"
  "lock_held (emit e s) = lock_held s"
  "rootDrive_url (emit e s) = rootDrive_url s"
  by (simp_all add: emit_def)

subsection \<open>The steps of \<^verbatim>\<open>configDrive\<close>\<close>

lemmas upd_defs =
  emit_def set_forkOf_def set_fork_key_def set_label_def configureNetwork_def new_cfg_def
  new_fork_def release_def Let_def

lemma write_fst:
  "fst (write_drives_json env s) =
     (if call_fails env (CallWriteFile ''/drives.json'')
      then Threw (IOError (CallWriteFile ''/drives.json'')) else Completed)"
  by (simp add: write_drives_json_def Let_def)

lemma write_snd:
  "snd (write_drives_json env s) =
     (emit (WriteFile ''/drives.json'') s)
       \<lparr>drives_json := (if call_fails env (CallWriteFile ''/drives.json'')
                        then drives_json s else Some (stringify_drives s))\<rparr>"
  by (simp add: write_drives_json_def Let_def emit_def)

lemma push_cfg_fst: "fst (push_cfg env cfg s) \<noteq> ReturnedEarly"
  by (simp add: push_cfg_def write_fst)

lemma push_cfg_trace: "trace (snd (push_cfg env cfg s)) = trace s @ [WriteFile ''/drives.json'']"
  by (simp add: push_cfg_def write_snd)

lemma fork_object_frame [simp]:
  "trace (snd (fork_object cfg s)) = trace s"
  "drives (snd (fork_object cfg s)) = drives s"
  "drives_json (snd (fork_object cfg s)) = drives_json s"
  "network (snd (fork_object cfg s)) = network s"
  "lock_held (snd (fork_object cfg s)) = lock_held s"
  "cfg_next (snd (fork_object cfg s)) = cfg_next s"
  by (simp_all add: fork_object_def upd_defs split: option.splits)

lemma push_parent_frame [simp]:
  "trace (push_parent pk s) = trace s"
  "drives_json (push_parent pk s) = drives_json s"
  "network (push_parent pk s) = network s"
  "lock_held (push_parent pk s) = lock_held s"
  "fork_heap (push_parent pk s) = fork_heap s"
  "fork_next (push_parent pk s) = fork_next s"
  by (simp_all add: push_parent_def upd_defs split: option.splits)

lemma new_entry_frame [simp]:
  "fst (new_entry d k fo s) = cfg_next s"
  "drives (snd (new_entry d k fo s)) = drives s"
  "drives_json (snd (new_entry d k fo s)) = drives_json s"
  "lock_held (snd (new_entry d k fo s)) = lock_held s"
  "cfg_next (snd (new_entry d k fo s)) = Suc (cfg_next s)"
  "fork_heap (snd (new_entry d k fo s)) = fork_heap s"
  "fork_next (snd (new_entry d k fo s)) = fork_next s"
  "trace (snd (new_entry d k fo s))
     = trace s @ (if writable d then [] else [ConfigureNetwork (drive_id d) True True])"
  "network (snd (new_entry d k fo s))
     = (if writable d then network s else (network s)(drive_id d \<mapsto> (True, True)))"
  by (simp_all add: new_entry_def upd_defs)

lemma fork_early:
  assumes "fst (configDrive_fork env cfg pu s) = ReturnedEarly"
  shows "declined (prompt env)
       \<and> drives (snd (configDrive_fork env cfg pu s)) = drives s
       \<and> drives_json (snd (configDrive_fork env cfg pu s)) = drives_json s
       \<and> network (snd (configDrive_fork env cfg pu s)) = network s
       \<and> lock_held (snd (configDrive_fork env cfg pu s)) = lock_held s
       \<and> trace (snd (configDrive_fork env cfg pu s)) = trace s @ [Prompt prompt_message]"
  using assms
  by (auto simp: configDrive_fork_def case_prod_beta Let_def push_cfg_fst set_fork_key_def emit_def
        split: option.splits if_splits prompt_result.splits)

lemma fork_no_prompt:
  assumes "declined (prompt env)"
    and "fst (configDrive_fork env cfg pu s) \<noteq> ReturnedEarly"
  shows "\<exists>evs. trace (snd (configDrive_fork env cfg pu s)) = trace s @ evs
           \<and> Prompt prompt_message \<notin> set evs"
  using assms
  by (auto simp: configDrive_fork_def case_prod_beta Let_def push_cfg_trace set_fork_key_def emit_def
        split: option.splits if_splits prompt_result.splits)

lemma new_early:
  assumes "fst (configDrive_new env u k fo s) = ReturnedEarly"
  shows "\<exists>d. getOrLoadDrive env u = Some d
       \<and> declined (prompt env)
       \<and> drives (snd (configDrive_new env u k fo s)) = drives s
       \<and> drives_json (snd (configDrive_new env u k fo s)) = drives_json s
       \<and> lock_held (snd (configDrive_new env u k fo s)) = lock_held s
       \<and> network (snd (configDrive_new env u k fo s))
           = (if writable d then network s else (network s)(drive_id d \<mapsto> (True, True)))
       \<and> trace (snd (configDrive_new env u k fo s))
           = trace s @ (if writable d then [] else [ConfigureNetwork (drive_id d) True True])
               @ [Prompt prompt_message]"
proof -
  from assms obtain d where d: "getOrLoadDrive env u = Some d"
    by (cases "getOrLoadDrive env u") (simp_all add: configDrive_new_def)
  from assms d obtain m where m: "readManifest d = Some m"
    by (cases "readManifest d") (simp_all add: configDrive_new_def case_prod_beta)
  from assms d m have eq: "configDrive_new env u k fo s
      = configDrive_fork env (cfg_next s) (str_of (manifest_forkOf m)) (snd (new_entry d k fo s))"
    by (simp add: configDrive_new_def case_prod_beta push_cfg_fst split: if_splits)
  with assms have "fst (configDrive_fork env (cfg_next s) (str_of (manifest_forkOf m))
      (snd (new_entry d k fo s))) = ReturnedEarly" by simp
  from fork_early [OF this] d show ?thesis by (simp add: eq)
qed

lemma new_no_prompt:
  assumes "declined (prompt env)"
    and "fst (configDrive_new env u k fo s) \<noteq> ReturnedEarly"
  shows "\<exists>evs. trace (snd (configDrive_new env u k fo s)) = trace s @ evs
           \<and> Prompt prompt_message \<notin> set evs"
proof (cases "getOrLoadDrive env u")
  case None
  then show ?thesis by (simp add: configDrive_new_def)
next
  case (Some d)
  note d = this
  show ?thesis
  proof (cases "readManifest d")
    case None
    with d show ?thesis by (simp add: configDrive_new_def case_prod_beta)
  next
    case (Some m)
    show ?thesis
    proof (cases "truthy (manifest_forkOf m) \<and> typeof (manifest_forkOf m) = ''string''")
      case False
      with Some d have "configDrive_new env u k fo s = push_cfg env (cfg_next s) (snd (new_entry d k fo s))"
        by (auto simp: configDrive_new_def case_prod_beta)
      then show ?thesis by (simp add: push_cfg_trace)
    next
      case True
      with Some d
      have eq: "configDrive_new env u k fo s
          = configDrive_fork env (cfg_next s) (str_of (manifest_forkOf m)) (snd (new_entry d k fo s))"
        by (simp add: configDrive_new_def case_prod_beta)
      from assms(2) have ne: "fst (configDrive_fork env (cfg_next s) (str_of (manifest_forkOf m))
          (snd (new_entry d k fo s))) \<noteq> ReturnedEarly" by (simp add: eq)
      from fork_no_prompt [OF assms(1) ne] show ?thesis by (auto simp: eq)
    qed
  qed
qed

lemma existing_frame [simp]:
  "trace (configDrive_existing cfg fo s) = trace s"
  "drives (configDrive_existing cfg fo s) = drives s"
  "drives_json (configDrive_existing cfg fo s) = drives_json s"
  "network (configDrive_existing cfg fo s) = network s"
  "lock_held (configDrive_existing cfg fo s) = lock_held s"
  "fork_heap (configDrive_existing cfg fo s) = fork_heap s"
  "fork_next (configDrive_existing cfg fo s) = fork_next s"
  "cfg_next (configDrive_existing cfg fo s) = cfg_next s"
  by (simp_all add: configDrive_existing_def upd_defs)

lemma body_early:
  assumes "fst (configDrive_body env u fo s) = ReturnedEarly"
  shows "\<exists>d. getOrLoadDrive env u = Some d
       \<and> declined (prompt env)
       \<and> drives (snd (configDrive_body env u fo s)) = drives s
       \<and> drives_json (snd (configDrive_body env u fo s)) = drives_json s
       \<and> lock_held (snd (configDrive_body env u fo s)) = lock_held s
       \<and> network (snd (configDrive_body env u fo s))
           = (if writable d then network s else (network s)(drive_id d \<mapsto> (True, True)))
       \<and> trace (snd (configDrive_body env u fo s))
           = trace s @ (if writable d then [] else [ConfigureNetwork (drive_id d) True True])
               @ [Prompt prompt_message]"
proof -
  from assms obtain k where k: "fromURLToKey env u = Some k"
    by (cases "fromURLToKey env u") (simp_all add: configDrive_body_def)
  from assms k have eq: "configDrive_body env u fo s = configDrive_new env u k fo s"
    by (simp add: configDrive_body_def write_fst split: option.splits if_splits)
  with assms have "fst (configDrive_new env u k fo s) = ReturnedEarly" by simp
  from new_early [OF this] show ?thesis by (simp add: eq)
qed

lemma body_no_prompt:
  assumes "declined (prompt env)"
    and "fst (configDrive_body env u fo s) \<noteq> ReturnedEarly"
  shows "\<exists>evs. trace (snd (configDrive_body env u fo s)) = trace s @ evs
           \<and> Prompt prompt_message \<notin> set evs"
proof (cases "fromURLToKey env u")
  case None
  then show ?thesis by (simp add: configDrive_body_def)
next
  case (Some k)
  show ?thesis
  proof (cases "find (\<lambda>d. key (cfg_heap s d) = k) (drives s)")
    case None
    with Some have eq: "configDrive_body env u fo s = configDrive_new env u k fo s"
      by (simp add: configDrive_body_def)
    with assms(2) have "fst (configDrive_new env u k fo s) \<noteq> ReturnedEarly" by simp
    from new_no_prompt [OF assms(1) this] show ?thesis by (simp add: eq)
  next
    case (Some cfg)
    with \<open>fromURLToKey env u = Some k\<close> show ?thesis
      by (simp add: configDrive_body_def write_snd)
  qed
qed

lemma configDrive_early:
  assumes "fst (configDrive env u fo s) = ReturnedEarly"
  shows "\<exists>d. getOrLoadDrive env u = Some d
       \<and> declined (prompt env)
       \<and> \<not> lock_held s ''filesystem:drives''
       \<and> drives (snd (configDrive env u fo s)) = drives s
       \<and> drives_json (snd (configDrive env u fo s)) = drives_json s
       \<and> lock_held (snd (configDrive env u fo s)) = (lock_held s)(''filesystem:drives'' := False)
       \<and> network (snd (configDrive env u fo s))
           = (if writable d then network s else (network s)(drive_id d \<mapsto> (True, True)))
       \<and> trace (snd (configDrive env u fo s))
           = trace s @ [LockAcquire ''filesystem:drives'']
               @ (if writable d then [] else [ConfigureNetwork (drive_id d) True True])
               @ [Prompt prompt_message, LockRelease ''filesystem:drives'']"
proof -
  from assms have free: "\<not> lock_held s ''filesystem:drives''"
    by (auto simp: configDrive_def lock_def split: if_splits)
  define s1 where "s1 = emit (LockAcquire ''filesystem:drives'')
    (s\<lparr>lock_held := (lock_held s)(''filesystem:drives'' := True)\<rparr>)"
  from free have eq: "configDrive env u fo s
      = (fst (configDrive_body env u fo s1), release ''filesystem:drives'' (snd (configDrive_body env u fo s1)))"
    by (simp add: configDrive_def lock_def s1_def case_prod_beta)
  with assms have "fst (configDrive_body env u fo s1) = ReturnedEarly" by simp
  from body_early [OF this] free show ?thesis
    by (auto simp: eq s1_def release_def emit_def)
qed

lemma configDrive_no_prompt:
  assumes "declined (prompt env)"
    and "fst (configDrive env u fo s) \<noteq> ReturnedEarly"
  shows "Prompt prompt_message \<notin> set (issued s (snd (configDrive env u fo s)))"
proof (cases "lock_held s ''filesystem:drives''")
  case True
  then show ?thesis by (simp add: configDrive_def lock_def issued_def)
next
  case False
  define s1 where "s1 = emit (LockAcquire ''filesystem:drives'')
    (s\<lparr>lock_held := (lock_held s)(''filesystem:drives'' := True)\<rparr>)"
  from False have eq: "configDrive env u fo s
      = (fst (configDrive_body env u fo s1), release ''filesystem:drives'' (snd (configDrive_body env u fo s1)))"
    by (simp add: configDrive_def lock_def s1_def case_prod_beta)
  with assms(2) have "fst (configDrive_body env u fo s1) \<noteq> ReturnedEarly" by simp
  from body_no_prompt [OF assms(1) this] show ?thesis
    by (auto simp: eq s1_def release_def emit_def issued_def)
qed

text \<open>The definitions a concrete call is evaluated with.\<close>

lemmas eval_defs =
  configDrive_def configDrive_body_def configDrive_new_def configDrive_existing_def
  configDrive_fork_def new_entry_def fork_object_def push_cfg_def push_parent_def
  write_drives_json_def lock_def upd_defs issued_def
  removeDrive_def removeDrive_body_def splice1_def getDriveConfig_def listDrives_def
  env2_def env3_def fork_drive_def plain_drive_def broken_drive_def self_drive_def second_fork_def state0_def
  prompt_message_def stringify_drives_def

subsection \<open>The steps of \<^verbatim>\<open>removeDrive\<close>\<close>

lemma findIndex_None_iff: "findIndex P xs = None \<longleftrightarrow> (\<forall>x \<in> set xs. \<not> P x)"
  by (induction xs) auto

lemma findIndex_Some:
  "findIndex P xs = Some i \<Longrightarrow> i < length xs \<and> P (xs ! i) \<and> (\<forall>j<i. \<not> P (xs ! j))"
proof (induction xs arbitrary: i)
  case Nil
  then show ?case by simp
next
  case (Cons x xs)
  show ?case
  proof (cases "P x")
    case True
    with Cons.prems show ?thesis by simp
  next
    case False
    with Cons.prems obtain i' where i': "findIndex P xs = Some i'" "i = Suc i'" by auto
    from Cons.IH [OF i'(1)] False i'(2) show ?thesis
      by (auto simp: nth_Cons split: nat.splits)
  qed
qed

lemma getDriveConfig_find:
  "getDriveConfig k s = find (\<lambda>d. key (cfg_heap s d) = k) (drives s)"
  by (simp add: getDriveConfig_def listDrives_def)

lemma getDriveConfig_None_iff:
  "getDriveConfig k s = None \<longleftrightarrow> k \<notin> set (keys s)"
  by (auto simp: getDriveConfig_find find_None_iff keys_def)

lemma distinct_remove_nth:
  assumes "distinct (map f xs)" and "i < length xs"
  shows "f (xs ! i) \<notin> f ` set (take i xs @ drop (Suc i) xs)"
proof -
  from assms(2) have "xs = take i xs @ xs ! i # drop (Suc i) xs"
    by (rule id_take_nth_drop)
  then have "map f xs = map f (take i xs) @ f (xs ! i) # map f (drop (Suc i) xs)"
    by (metis list.simps(9) map_append)
  with assms(1) have "distinct (map f (take i xs) @ f (xs ! i) # map f (drop (Suc i) xs))"
    by simp
  then show ?thesis by auto
qed

lemma removeDrive_absent:
  assumes "\<not> lock_held s ''filesystem:drives''" and "fromURLToKey env u = Some k"
    and "getDriveConfig k s = None"
  shows "removeDrive env u s
       = (ReturnedEarly, s\<lparr>trace := trace s @ [LockAcquire ''filesystem:drives'', LockRelease ''filesystem:drives'']\<rparr>)"
proof -
  from assms(3) have "findIndex (\<lambda>d. key (cfg_heap s d) = k) (drives s) = None"
    by (simp add: getDriveConfig_find find_None_iff findIndex_None_iff)
  with assms(1,2) show ?thesis
    by (simp add: removeDrive_def removeDrive_body_def lock_def upd_defs fun_upd_idem)
qed

lemma removeDrive_present:
  assumes "\<not> lock_held s ''filesystem:drives''" and "fromURLToKey env u = Some k"
    and "findIndex (\<lambda>d. key (cfg_heap s d) = k) (drives s) = Some i"
    and "getOrLoadDrive env u = Some d"
    and "\<not> call_fails env (CallWriteFile ''/drives.json'')"
  shows "removeDrive env u s
       = (Completed,
          s\<lparr>drives := take i (drives s) @ drop (Suc i) (drives s),
            network := (if writable d then network s else (network s)(drive_id d \<mapsto> (False, True))),
            drives_json := Some (map (\<lambda>d. (key (cfg_heap s d), map_option (fork_heap s) (forkOf (cfg_heap s d))))
                                   (take i (drives s) @ drop (Suc i) (drives s))),
            trace := trace s @ [LockAcquire ''filesystem:drives'']
                       @ (if writable d then [] else [ConfigureNetwork (drive_id d) False True])
                       @ [WriteFile ''/drives.json'', LockRelease ''filesystem:drives'']\<rparr>)"
  using assms
  by (simp add: removeDrive_def removeDrive_body_def lock_def upd_defs write_drives_json_def
        splice1_def stringify_drives_def fun_upd_idem)

subsection \<open>The path of \<^verbatim>\<open>configDrive\<close> through a manifest that names a parent\<close>

lemma keys_frame [simp]:
  "keys (s\<lparr>trace := t\<rparr>) = keys s"
  "keys (s\<lparr>fork_heap := fh\<rparr>) = keys s"
  "keys (s\<lparr>fork_next := fn\<rparr>) = keys s"
  "keys (s\<lparr>network := n\<rparr>) = keys s"
  "keys (s\<lparr>lock_held := l\<rparr>) = keys s"
  "keys (s\<lparr>drives_json := dj\<rparr>) = keys s"
  "keys (s\<lparr>cfg_next := cn\<rparr>) = keys s"
  by (simp_all add: keys_def)

lemma push_parent_eq:
  "push_parent pk s =
     (if pk \<in> set (keys s) then s
      else s\<lparr>cfg_heap := (cfg_heap s)(cfg_next s := \<lparr>key = pk, forkOf = None\<rparr>),
             cfg_next := Suc (cfg_next s),
             drives := drives s @ [cfg_next s]\<rparr>)"
proof (cases "find (\<lambda>d. key (cfg_heap s d) = pk) (drives s)")
  case None
  then have "pk \<notin> set (keys s)" by (auto simp: find_None_iff keys_def)
  with None show ?thesis by (simp add: push_parent_def new_cfg_def)
next
  case (Some a)
  then have "pk \<in> set (keys s)" by (force simp: find_Some_iff keys_def)
  with Some show ?thesis by (simp add: push_parent_def)
qed


lemma ForkOf_updates:
  "r\<lparr>fork_key := a\<rparr> = \<lparr>fork_key = a, label = label r\<rparr>"
  "r\<lparr>label := b\<rparr> = \<lparr>fork_key = fork_key r, label = b\<rparr>"
  for r :: ForkOf
  by (cases r; simp)+

lemma fork_object_more:
  "cfg_heap (snd (fork_object cfg s))
     = (cfg_heap s)(cfg := (cfg_heap s cfg)\<lparr>forkOf := Some (fst (fork_object cfg s))\<rparr>)"
  "fst (fork_object cfg s) = (case forkOf (cfg_heap s cfg) of Some g \<Rightarrow> g | None \<Rightarrow> fork_next s)"
  "fork_next (snd (fork_object cfg s))
     = (case forkOf (cfg_heap s cfg) of Some g \<Rightarrow> fork_next s | None \<Rightarrow> Suc (fork_next s))"
  by (auto simp: fork_object_def upd_defs split: option.splits)


lemma fork_stages:
  assumes "fst (configDrive_fork env cfg pu s) = Completed"
  shows "\<exists>pk s3 lbl. fromURLToKey env pu = Some pk \<and> truthy_str lbl
     \<and> configDrive_fork env cfg pu s = push_cfg env cfg (push_parent pk s3)
     \<and> drives s3 = drives s
     \<and> cfg_next s3 = cfg_next s
     \<and> cfg_heap s3 = cfg_heap (snd (fork_object cfg s))
     \<and> fork_next s3 = fork_next (snd (fork_object cfg s))
     \<and> fork_heap s3 = (fork_heap (snd (fork_object cfg s)))
          (fst (fork_object cfg s) := \<lparr>fork_key = Some pk, label = lbl\<rparr>)"
proof -
  define f where "f = fst (fork_object cfg s)"
  define s1 where "s1 = snd (fork_object cfg s)"
  from assms obtain pk where pk: "fromURLToKey env pu = Some pk"
    by (cases "fromURLToKey env pu") (simp_all add: configDrive_fork_def case_prod_beta)
  define s2 where "s2 = set_fork_key f pk s1"
  show ?thesis
  proof (cases "truthy_str (label (fork_heap s2 f))")
    case True
    with pk have eq: "configDrive_fork env cfg pu s = push_cfg env cfg (push_parent pk s2)"
      by (simp add: configDrive_fork_def case_prod_beta Let_def f_def s1_def s2_def)
    have "fork_heap s2 = (fork_heap s1)(f := \<lparr>fork_key = Some pk, label = label (fork_heap s2 f)\<rparr>)"
      by (simp add: s2_def set_fork_key_def ForkOf_updates)
    with pk True eq show ?thesis
      unfolding f_def s1_def
      by (intro exI [of _ pk] exI [of _ s2] exI [of _ "label (fork_heap s2 f)"])
         (simp add: s2_def set_fork_key_def f_def s1_def)
  next
    case False
    with pk assms obtain v where v: "prompt env = Answer v" "truthy_str v"
      by (cases "prompt env")
         (auto simp: configDrive_fork_def case_prod_beta Let_def f_def s1_def s2_def split: if_splits)
    define s3 where "s3 = set_label f v (emit (Prompt prompt_message) s2)"
    from pk False v have eq: "configDrive_fork env cfg pu s = push_cfg env cfg (push_parent pk s3)"
      by (simp add: configDrive_fork_def case_prod_beta Let_def f_def s1_def s2_def s3_def)
    have "fork_heap s3 = (fork_heap s1)(f := \<lparr>fork_key = Some pk, label = v\<rparr>)"
      by (simp add: s3_def s2_def set_fork_key_def set_label_def emit_def ForkOf_updates)
    with pk v eq show ?thesis
      unfolding f_def s1_def
      by (intro exI [of _ pk] exI [of _ s3] exI [of _ v])
         (simp add: s3_def s2_def set_fork_key_def set_label_def emit_def f_def s1_def)
  qed
qed


lemma new_entry_cfg_heap:
  "cfg_heap (snd (new_entry d k fo s))
     = (cfg_heap s)(cfg_next s := \<lparr>key = k,
          forkOf = (if truthy fo \<and> typeof fo = ''object'' then Some (ref_of fo) else None)\<rparr>)"
  by (simp add: new_entry_def upd_defs)

lemma well_formed_drives: "well_formed s \<Longrightarrow> a \<in> set (drives s) \<Longrightarrow> a < cfg_next s"
  by (auto simp: well_formed_def list_all_iff)


lemma configDrive_locked:
  "\<not> lock_held s ''filesystem:drives'' \<Longrightarrow>
   configDrive env u fo s
     = (fst (configDrive_body env u fo (emit (LockAcquire ''filesystem:drives'')
              (s\<lparr>lock_held := (lock_held s)(''filesystem:drives'' := True)\<rparr>))),
        release ''filesystem:drives''
          (snd (configDrive_body env u fo (emit (LockAcquire ''filesystem:drives'')
              (s\<lparr>lock_held := (lock_held s)(''filesystem:drives'' := True)\<rparr>)))))"
  by (simp add: configDrive_def lock_def case_prod_beta)




subsection \<open>A completed \<^verbatim>\<open>configDrive\<close> leaves an entry for the key\<close>

lemma keys_set_forkOf [simp]: "keys (set_forkOf a f s) = keys s"
  by (simp add: keys_def set_forkOf_def)

lemma keys_existing [simp]: "keys (configDrive_existing a fo s) = keys s"
  by (simp add: configDrive_existing_def)

lemma keys_write [simp]: "keys (snd (write_drives_json env s)) = keys s"
  by (simp add: write_snd keys_def emit_def)

lemma keys_release [simp]: "keys (release n s) = keys s"
  by (simp add: keys_def release_def emit_def)

lemma keys_push_cfg: "keys (snd (push_cfg env c s)) = keys s @ [key (cfg_heap s c)]"
  by (simp add: push_cfg_def write_snd keys_def emit_def)

lemma push_parent_key: "c < cfg_next s \<Longrightarrow> key (cfg_heap (push_parent pk s) c) = key (cfg_heap s c)"
  by (simp add: push_parent_eq)

lemma new_completed_key:
  assumes "fst (configDrive_new env u k fo s) = Completed"
  shows "k \<in> set (keys (snd (configDrive_new env u k fo s)))"
proof -
  from assms obtain d where d: "getOrLoadDrive env u = Some d"
    by (cases "getOrLoadDrive env u") (simp_all add: configDrive_new_def)
  from assms d obtain m where m: "readManifest d = Some m"
    by (cases "readManifest d") (simp_all add: configDrive_new_def case_prod_beta)
  define c where "c = cfg_next s"
  define sE where "sE = snd (new_entry d k fo s)"
  have sE: "key (cfg_heap sE c) = k" "cfg_next sE = Suc c"
    by (simp_all add: sE_def c_def new_entry_cfg_heap)
  show ?thesis
  proof (cases "truthy (manifest_forkOf m) \<and> typeof (manifest_forkOf m) = ''string''")
    case False
    with d m have "configDrive_new env u k fo s = push_cfg env c sE"
      by (auto simp: configDrive_new_def case_prod_beta c_def sE_def)
    with sE show ?thesis by (simp add: keys_push_cfg)
  next
    case True
    with d m have eq: "configDrive_new env u k fo s
        = configDrive_fork env c (str_of (manifest_forkOf m)) sE"
      by (simp add: configDrive_new_def case_prod_beta c_def sE_def)
    with assms have "fst (configDrive_fork env c (str_of (manifest_forkOf m)) sE) = Completed"
      by simp
    from fork_stages [OF this] obtain pk s3 where
      eq3: "configDrive_fork env c (str_of (manifest_forkOf m)) sE = push_cfg env c (push_parent pk s3)"
      and s3: "cfg_next s3 = cfg_next sE" "cfg_heap s3 = cfg_heap (snd (fork_object c sE))"
      by blast
    have "key (cfg_heap s3 c) = k"
      by (simp add: s3 fork_object_more(1) sE)
    moreover have "c < cfg_next s3" by (simp add: s3 sE)
    ultimately show ?thesis
      by (simp add: eq eq3 keys_push_cfg push_parent_key)
  qed
qed

lemma configDrive_completed_key:
  assumes "fromURLToKey env u = Some k" and "fst (configDrive env u fo s) = Completed"
  shows "getDriveConfig k (snd (configDrive env u fo s)) \<noteq> None"
proof -
  from assms(2) have free: "\<not> lock_held s ''filesystem:drives''"
    by (auto simp: configDrive_def lock_def split: if_splits)
  define s1 where "s1 = emit (LockAcquire ''filesystem:drives'')
    (s\<lparr>lock_held := (lock_held s)(''filesystem:drives'' := True)\<rparr>)"
  have cfg: "configDrive env u fo s
      = (fst (configDrive_body env u fo s1), release ''filesystem:drives'' (snd (configDrive_body env u fo s1)))"
    unfolding s1_def by (rule configDrive_locked [OF free])
  have "k \<in> set (keys (snd (configDrive_body env u fo s1)))"
  proof (cases "find (\<lambda>d. key (cfg_heap s1 d) = k) (drives s1)")
    case None
    with assms(1) have eq: "configDrive_body env u fo s1 = configDrive_new env u k fo s1"
      by (simp add: configDrive_body_def)
    with assms(2) cfg have "fst (configDrive_new env u k fo s1) = Completed" by simp
    from new_completed_key [OF this] show ?thesis by (simp add: eq)
  next
    case (Some a)
    then have "k \<in> set (keys s1)" by (force simp: find_Some_iff keys_def)
    with Some assms(1) show ?thesis by (simp add: configDrive_body_def)
  qed
  then show ?thesis by (simp add: cfg getDriveConfig_None_iff)
qed

lemma configDrive_plain_completes:
  assumes "\<not> lock_held s ''filesystem:drives''"
    and "fromURLToKey env u = Some k"
    and "getDriveConfig k s = None"
    and "getOrLoadDrive env u = Some d"
    and "readManifest d = Some m"
    and "\<not> (truthy (manifest_forkOf m) \<and> typeof (manifest_forkOf m) = ''string'')"
    and "\<not> call_fails env (CallWriteFile ''/drives.json'')"
  shows "fst (configDrive env u fo s) = Completed"
proof -
  define s1 where "s1 = emit (LockAcquire ''filesystem:drives'')
    (s\<lparr>lock_held := (lock_held s)(''filesystem:drives'' := True)\<rparr>)"
  have cfg: "configDrive env u fo s
      = (fst (configDrive_body env u fo s1), release ''filesystem:drives'' (snd (configDrive_body env u fo s1)))"
    unfolding s1_def by (rule configDrive_locked [OF assms(1)])
  from assms(3) have "find (\<lambda>d. key (cfg_heap s1 d) = k) (drives s1) = None"
    by (simp add: getDriveConfig_find s1_def emit_def)
  with assms(2,4,5,6) have "configDrive_body env u fo s1
      = push_cfg env (cfg_next s1) (snd (new_entry d k fo s1))"
    by (auto simp: configDrive_body_def configDrive_new_def case_prod_beta)
  with assms(7) show ?thesis by (simp add: cfg push_cfg_def write_fst)
qed

subsection \<open>Entry objects keep their key\<close>

lemma keeps_keys_refl [simp]: "keeps_keys s s"
  by (simp add: keeps_keys_def)


lemma keeps_keys_fields:
  "cfg_next s' = cfg_next s \<Longrightarrow> (\<And>a. key (cfg_heap s' a) = key (cfg_heap s a)) \<Longrightarrow> keeps_keys s s'"
  by (simp add: keeps_keys_def)











subsection \<open>The search for an available name\<close>

lemma stat_tree: "\<not> call_fails env (CallStat p) \<Longrightarrow> stat env s p = tree s p"
  by (simp add: stat_def pda_stat_def split: option.splits)

lemma stat_None_iff:
  "\<not> call_fails env (CallStat p) \<Longrightarrow> stat env s p = None \<longleftrightarrow> tree s p = None"
  by (simp add: stat_def pda_stat_def split: option.splits)




subsection \<open>Well-formed registries\<close>


lemma well_formed_steps [simp]:
  "well_formed (emit e s) = well_formed s"
  "well_formed (release n s) = well_formed s"
  "well_formed (configureNetwork d an lo s) = well_formed s"
  "well_formed (set_fork_key g pk s) = well_formed s"
  "well_formed (set_label g v s) = well_formed s"
  "well_formed (snd (write_drives_json env s)) = well_formed s"
  "well_formed (s\<lparr>lock_held := l\<rparr>) = well_formed s"
  by (auto simp: well_formed_def upd_defs write_snd list_all_iff split: option.splits)

lemma pending_ok_steps [simp]:
  "pending_ok c (emit e s) = pending_ok c s"
  "pending_ok c (set_fork_key g pk s) = pending_ok c s"
  "pending_ok c (set_label g v s) = pending_ok c s"
  by (auto simp: pending_ok_def well_formed_def upd_defs list_all_iff split: option.splits)

lemma pending_ok_well_formed: "pending_ok c s \<Longrightarrow> well_formed s"
  by (simp add: pending_ok_def)

lemma pending_ok_new_entry:
  assumes "well_formed s" and "\<forall>r. fo = JObject r \<longrightarrow> r < fork_next s"
  shows "pending_ok (cfg_next s) (snd (new_entry d k fo s))"
proof -
  from assms(1) have "\<forall>a\<in>set (drives s). a \<noteq> cfg_next s" by (auto dest: well_formed_drives)
  with assms show ?thesis
    by (cases fo)
       (auto simp: pending_ok_def well_formed_def new_entry_def upd_defs list_all_iff
          split: option.splits)
qed

lemma pending_ok_fork_object: "pending_ok c s \<Longrightarrow> pending_ok c (snd (fork_object c s))"
  by (auto simp: pending_ok_def well_formed_def fork_object_def upd_defs list_all_iff
        split: option.splits)

lemma pending_ok_push_parent: "pending_ok c s \<Longrightarrow> pending_ok c (push_parent pk s)"
  by (auto simp: pending_ok_def well_formed_def push_parent_eq list_all_iff split: option.splits)

lemma well_formed_push_cfg: "pending_ok c s \<Longrightarrow> well_formed (snd (push_cfg env c s))"
  by (auto simp: pending_ok_def well_formed_def push_cfg_def write_snd emit_def list_all_iff
        split: option.splits)

lemma well_formed_fork:
  assumes "pending_ok c s"
  shows "well_formed (snd (configDrive_fork env c pu s))"
proof -
  have 1: "pending_ok c (snd (fork_object c s))" by (rule pending_ok_fork_object [OF assms])
  have fin: "pending_ok c s1 \<Longrightarrow> well_formed (snd (push_cfg env c (push_parent pk s1)))" for s1 pk
    by (rule well_formed_push_cfg [OF pending_ok_push_parent])
  show ?thesis
    using 1 pending_ok_well_formed [OF 1]
    by (simp add: configDrive_fork_def case_prod_beta Let_def fin
          split: option.splits prompt_result.splits)
qed

lemma well_formed_new:
  assumes "well_formed s" and "\<forall>r. fo = JObject r \<longrightarrow> r < fork_next s"
  shows "well_formed (snd (configDrive_new env u k fo s))"
proof -
  have 1: "pending_ok (cfg_next s) (snd (new_entry d k fo s))" for d
    by (rule pending_ok_new_entry [OF assms])
  show ?thesis
    using assms(1) pending_ok_well_formed [OF 1] well_formed_push_cfg [OF 1] well_formed_fork [OF 1]
    by (simp add: configDrive_new_def case_prod_beta Let_def split: option.splits)
qed

lemma well_formed_existing:
  assumes "well_formed s" and "\<forall>r. fo = JObject r \<longrightarrow> r < fork_next s"
  shows "well_formed (configDrive_existing a fo s)"
  using assms
  by (cases fo)
     (auto simp: well_formed_def configDrive_existing_def set_forkOf_def list_all_iff
        split: option.splits)

lemma well_formed_configDrive:
  assumes "well_formed s" and "\<forall>r. fo = JObject r \<longrightarrow> r < fork_next s"
  shows "well_formed (snd (configDrive env u fo s))"
proof (cases "lock_held s ''filesystem:drives''")
  case True
  with assms(1) show ?thesis by (simp add: configDrive_def lock_def)
next
  case False
  define s1 where "s1 = emit (LockAcquire ''filesystem:drives'')
    (s\<lparr>lock_held := (lock_held s)(''filesystem:drives'' := True)\<rparr>)"
  from assms have wf1: "well_formed s1" and arg1: "\<forall>r. fo = JObject r \<longrightarrow> r < fork_next s1"
    by (auto simp: s1_def emit_def well_formed_def list_all_iff split: option.splits)
  have "well_formed (snd (configDrive_body env u fo s1))"
    using wf1 well_formed_new [OF wf1 arg1] well_formed_existing [OF wf1 arg1]
    by (simp add: configDrive_body_def split: option.splits)
  then show ?thesis
    by (simp add: configDrive_locked [OF False] s1_def)
qed

lemma well_formed_removeDrive:
  assumes "well_formed s"
  shows "well_formed (snd (removeDrive env u s))"
proof -
  have "set (splice1 i xs) \<subseteq> set xs" for i and xs :: "ref list"
    by (auto simp: splice1_def dest: in_set_takeD in_set_dropD)
  with assms show ?thesis
    by (auto simp: removeDrive_def removeDrive_body_def lock_def case_prod_beta write_snd upd_defs
          well_formed_def list_all_iff split: option.splits)
qed

lemma well_formed_listDrives:
  assumes "well_formed s"
  shows "well_formed (snd (listDrives b s))"
proof -
  from assms have "\<forall>a\<in>set (drives s). a \<noteq> cfg_next s" by (auto dest: well_formed_drives)
  with assms show ?thesis
    by (auto simp: listDrives_def new_cfg_def Let_def well_formed_def list_all_iff
          split: option.splits)
qed

lemma well_formed_state0: "well_formed state0"
  by (simp add: well_formed_def state0_def)

subsection \<open>The objects after a declined prompt\<close>




subsection \<open>What \<^verbatim>\<open>removeDrive\<close> does\<close>

text \<open>
  With the lock free and a URL that resolves to \<open>k\<close>: if no entry has the key,
  \<^verbatim>\<open>removeDrive\<close> returns early and adds only the events of the lock (no error, no write,
  no network change). If an entry has the key, the drive loads and the write succeeds, the
  call completes, one entry with the key is removed from \<^verbatim>\<open>drives\<close> and no object is
  changed, the document written is the whole new list, a drive that is not writable is set to
  announce false and lookup true (a writable one is left alone), and the lock is released. In
  a registry whose keys are distinct \<^verbatim>\<open>getDriveConfig\<close> then no longer finds the key, and
  a following \<^verbatim>\<open>configDrive\<close> of the URL that completes leaves an entry for the key again.
\<close>

lemma removeDrive_effect:
  assumes free: "\<not> lock_held s ''filesystem:drives''"
    and k: "fromURLToKey env u = Some k"
  shows "(getDriveConfig k s = None \<longrightarrow>
            removeDrive env u s
              = (ReturnedEarly,
                 s\<lparr>trace := trace s @ [LockAcquire ''filesystem:drives'', LockRelease ''filesystem:drives'']\<rparr>))
       \<and> (getDriveConfig k s \<noteq> None \<and> getOrLoadDrive env u = Some d
            \<and> \<not> call_fails env (CallWriteFile ''/drives.json'') \<longrightarrow>
            fst (removeDrive env u s) = Completed
          \<and> (\<exists>i<length (drives s). key (cfg_heap s (drives s ! i)) = k
                \<and> (\<forall>j<i. key (cfg_heap s (drives s ! j)) \<noteq> k)
                \<and> drives (snd (removeDrive env u s)) = take i (drives s) @ drop (Suc i) (drives s))
          \<and> cfg_heap (snd (removeDrive env u s)) = cfg_heap s
          \<and> fork_heap (snd (removeDrive env u s)) = fork_heap s
          \<and> drives_json (snd (removeDrive env u s)) = Some (stringify_drives (snd (removeDrive env u s)))
          \<and> network (snd (removeDrive env u s))
               = (if writable d then network s else (network s)(drive_id d \<mapsto> (False, True)))
          \<and> \<not> lock_held (snd (removeDrive env u s)) ''filesystem:drives''
          \<and> (distinct (keys s) \<longrightarrow> getDriveConfig k (snd (removeDrive env u s)) = None)
          \<and> (\<forall>env' fo. fromURLToKey env' u = Some k
                \<and> fst (configDrive env' u fo (snd (removeDrive env u s))) = Completed \<longrightarrow>
                getDriveConfig k (snd (configDrive env' u fo (snd (removeDrive env u s)))) \<noteq> None)
          \<and> (\<forall>env' fo d' m. distinct (keys s) \<and> fromURLToKey env' u = Some k
                \<and> getOrLoadDrive env' u = Some d' \<and> readManifest d' = Some m
                \<and> \<not> (truthy (manifest_forkOf m) \<and> typeof (manifest_forkOf m) = ''string'')
                \<and> \<not> call_fails env' (CallWriteFile ''/drives.json'') \<longrightarrow>
                fst (configDrive env' u fo (snd (removeDrive env u s))) = Completed))"
proof (intro conjI)
  show "getDriveConfig k s = None \<longrightarrow>
            removeDrive env u s
              = (ReturnedEarly,
                 s\<lparr>trace := trace s @ [LockAcquire ''filesystem:drives'', LockRelease ''filesystem:drives'']\<rparr>)"
    using removeDrive_absent [OF free k] by blast
next
  show "getDriveConfig k s \<noteq> None \<and> getOrLoadDrive env u = Some d
            \<and> \<not> call_fails env (CallWriteFile ''/drives.json'') \<longrightarrow>
            fst (removeDrive env u s) = Completed
          \<and> (\<exists>i<length (drives s). key (cfg_heap s (drives s ! i)) = k
                \<and> (\<forall>j<i. key (cfg_heap s (drives s ! j)) \<noteq> k)
                \<and> drives (snd (removeDrive env u s)) = take i (drives s) @ drop (Suc i) (drives s))
          \<and> cfg_heap (snd (removeDrive env u s)) = cfg_heap s
          \<and> fork_heap (snd (removeDrive env u s)) = fork_heap s
          \<and> drives_json (snd (removeDrive env u s)) = Some (stringify_drives (snd (removeDrive env u s)))
          \<and> network (snd (removeDrive env u s))
               = (if writable d then network s else (network s)(drive_id d \<mapsto> (False, True)))
          \<and> \<not> lock_held (snd (removeDrive env u s)) ''filesystem:drives''
          \<and> (distinct (keys s) \<longrightarrow> getDriveConfig k (snd (removeDrive env u s)) = None)
          \<and> (\<forall>env' fo. fromURLToKey env' u = Some k
                \<and> fst (configDrive env' u fo (snd (removeDrive env u s))) = Completed \<longrightarrow>
                getDriveConfig k (snd (configDrive env' u fo (snd (removeDrive env u s)))) \<noteq> None)
          \<and> (\<forall>env' fo d' m. distinct (keys s) \<and> fromURLToKey env' u = Some k
                \<and> getOrLoadDrive env' u = Some d' \<and> readManifest d' = Some m
                \<and> \<not> (truthy (manifest_forkOf m) \<and> typeof (manifest_forkOf m) = ''string'')
                \<and> \<not> call_fails env' (CallWriteFile ''/drives.json'') \<longrightarrow>
                fst (configDrive env' u fo (snd (removeDrive env u s))) = Completed)"
  proof (rule impI, intro conjI)
  assume a: "getDriveConfig k s \<noteq> None \<and> getOrLoadDrive env u = Some d
            \<and> \<not> call_fails env (CallWriteFile ''/drives.json'')"
  then obtain i where i: "findIndex (\<lambda>d. key (cfg_heap s d) = k) (drives s) = Some i"
    by (cases "findIndex (\<lambda>d. key (cfg_heap s d) = k) (drives s)")
       (auto simp: findIndex_None_iff getDriveConfig_find find_None_iff)
  from a have d: "getOrLoadDrive env u = Some d"
    and w: "\<not> call_fails env (CallWriteFile ''/drives.json'')" by simp_all
  note eq = removeDrive_present [OF free k i d w]
  note ix = findIndex_Some [OF i]
  define s' where "s' = snd (removeDrive env u s)"
  have dr: "drives s' = take i (drives s) @ drop (Suc i) (drives s)"
    and ch: "cfg_heap s' = cfg_heap s"
    and lk: "\<not> lock_held s' ''filesystem:drives''"
    by (simp_all add: s'_def eq free)
  have gone: "getDriveConfig k s' = None" if "distinct (keys s)"
  proof -
    from that ix distinct_remove_nth [of "\<lambda>d. key (cfg_heap s d)" "drives s" i]
    have "k \<notin> (\<lambda>d. key (cfg_heap s d)) ` set (take i (drives s) @ drop (Suc i) (drives s))"
      by (simp add: keys_def)
    then show ?thesis
      by (auto simp: getDriveConfig_None_iff keys_def dr ch)
  qed
  show "fst (removeDrive env u s) = Completed" by (simp add: eq)
  show "\<exists>i<length (drives s). key (cfg_heap s (drives s ! i)) = k
                \<and> (\<forall>j<i. key (cfg_heap s (drives s ! j)) \<noteq> k)
                \<and> drives (snd (removeDrive env u s)) = take i (drives s) @ drop (Suc i) (drives s)"
    using ix dr unfolding s'_def by blast
  show "cfg_heap (snd (removeDrive env u s)) = cfg_heap s" by (simp add: eq)
  show "fork_heap (snd (removeDrive env u s)) = fork_heap s" by (simp add: eq)
  show "drives_json (snd (removeDrive env u s)) = Some (stringify_drives (snd (removeDrive env u s)))"
    by (simp add: eq stringify_drives_def)
  show "network (snd (removeDrive env u s))
               = (if writable d then network s else (network s)(drive_id d \<mapsto> (False, True)))"
    by (simp add: eq)
  show "\<not> lock_held (snd (removeDrive env u s)) ''filesystem:drives''"
    using lk by (simp add: s'_def)
  show "distinct (keys s) \<longrightarrow> getDriveConfig k (snd (removeDrive env u s)) = None"
    using gone by (simp add: s'_def)
  show "\<forall>env' fo. fromURLToKey env' u = Some k
                \<and> fst (configDrive env' u fo (snd (removeDrive env u s))) = Completed \<longrightarrow>
                getDriveConfig k (snd (configDrive env' u fo (snd (removeDrive env u s)))) \<noteq> None"
    using configDrive_completed_key by blast
  show "\<forall>env' fo d' m. distinct (keys s) \<and> fromURLToKey env' u = Some k
                \<and> getOrLoadDrive env' u = Some d' \<and> readManifest d' = Some m
                \<and> \<not> (truthy (manifest_forkOf m) \<and> typeof (manifest_forkOf m) = ''string'')
                \<and> \<not> call_fails env' (CallWriteFile ''/drives.json'') \<longrightarrow>
                fst (configDrive env' u fo (snd (removeDrive env u s))) = Completed"
    using configDrive_plain_completes [OF lk [unfolded s'_def]] gone [unfolded s'_def] by blast
qed
qed

subsection \<open>The paths of \<^verbatim>\<open>configDrive\<close> on which only the caller gives \<^verbatim>\<open>forkOf\<close>\<close>



section \<open>The claims\<close>

subsection \<open>Fork lineage\<close>




subsection \<open>A manifest that cannot be read\<close>

text \<open>
  Claim C2 says that \<^verbatim>\<open>configDrive\<close> on a URL that is not registered, whose drive has a
  manifest that cannot be read, goes on as with no manifest and registers the drive. The code
  does not: the rejected \<^verbatim>\<open>readManifest\<close> becomes \<^verbatim>\<open>undefined\<close>, and line 173 reads
  \<^verbatim>\<open>manifest.forkOf\<close> of it. For every state with the lock free, every URL that resolves
  to a key with no entry and every drive whose manifest cannot be read, the call throws a
  TypeError, pushes no entry and writes no document (the lock is released).
\<close>

theorem configDrive_unreadable_manifest:
  assumes "\<not> lock_held s ''filesystem:drives''"
    and "fromURLToKey env u = Some k"
    and "getDriveConfig k s = None"
    and "getOrLoadDrive env u = Some d"
    and "readManifest d = None"
  shows "fst (configDrive env u forkOfArg s) = Threw TypeError
       \<and> drives (snd (configDrive env u forkOfArg s)) = drives s
       \<and> drives_json (snd (configDrive env u forkOfArg s)) = drives_json s
       \<and> WriteFile ''/drives.json'' \<notin> set (issued s (snd (configDrive env u forkOfArg s)))
       \<and> \<not> lock_held (snd (configDrive env u forkOfArg s)) ''filesystem:drives''"
proof -
  define s1 where "s1 = emit (LockAcquire ''filesystem:drives'')
    (s\<lparr>lock_held := (lock_held s)(''filesystem:drives'' := True)\<rparr>)"
  from assms(3) have nf: "find (\<lambda>d. key (cfg_heap s1 d) = k) (drives s1) = None"
    by (simp add: getDriveConfig_def listDrives_def s1_def emit_def)
  from assms(1) have eq: "configDrive env u forkOfArg s
      = (fst (configDrive_body env u forkOfArg s1), release ''filesystem:drives'' (snd (configDrive_body env u forkOfArg s1)))"
    by (simp add: configDrive_def lock_def s1_def case_prod_beta)
  from assms(2,4,5) nf have body: "configDrive_body env u forkOfArg s1
      = (Threw TypeError, snd (new_entry d k forkOfArg s1))"
    by (simp add: configDrive_body_def configDrive_new_def case_prod_beta)
  show ?thesis
    unfolding eq body by (simp add: s1_def issued_def release_def emit_def)
qed

theorem configDrive_unreadable_manifest_witness:
  "\<not> lock_held state0 ''filesystem:drives''
   \<and> fromURLToKey env2 ''hyper://cc'' = Some ''cc''
   \<and> getDriveConfig ''cc'' state0 = None
   \<and> getOrLoadDrive env2 ''hyper://cc'' = Some broken_drive
   \<and> readManifest broken_drive = None
   \<and> fst (configDrive env2 ''hyper://cc'' JUndefined state0) = Threw TypeError
   \<and> drives (snd (configDrive env2 ''hyper://cc'' JUndefined state0)) = []
   \<and> drives_json (snd (configDrive env2 ''hyper://cc'' JUndefined state0)) = None"
proof -
  have a: "\<not> lock_held state0 ''filesystem:drives''" by (simp add: state0_def)
  have b: "fromURLToKey env2 ''hyper://cc'' = Some ''cc''" by (simp add: env2_def)
  have c: "getDriveConfig ''cc'' state0 = None"
    by (simp add: getDriveConfig_def listDrives_def state0_def)
  have d: "getOrLoadDrive env2 ''hyper://cc'' = Some broken_drive" by (simp add: env2_def)
  have e: "readManifest broken_drive = None" by (simp add: broken_drive_def)
  from configDrive_unreadable_manifest [OF a b c d e, of JUndefined] a b c d e show ?thesis
    by (simp add: state0_def)
qed

subsection \<open>A declined prompt\<close>




subsection \<open>The reconcilers\<close>

text \<open>
  Claim C5 gives the four cases of \<^verbatim>\<open>ensureMount(path, url)\<close> for every path and
  resolvable URL. The cases are told apart by the module's \<^verbatim>\<open>stat\<close>, which reports a
  failed \<^verbatim>\<open>stat\<close> of the drive as nothing at the path (lines 286 to 289), and a failed
  \<^verbatim>\<open>mount\<close> or \<^verbatim>\<open>unmount\<close> is caught and logged (line 323). So with a mount to
  \<^verbatim>\<open>aa\<close> at \<^verbatim>\<open>/m\<close>: when \<^verbatim>\<open>stat\<close> fails, \<^verbatim>\<open>ensureMount('/m', 'hyper://aa')\<close>
  issues a \<^verbatim>\<open>mount\<close> although the mount to the same key exists; when \<^verbatim>\<open>unmount\<close>
  fails, \<^verbatim>\<open>ensureMount('/m', 'hyper://bb')\<close> issues the \<^verbatim>\<open>unmount\<close> and no \<^verbatim>\<open>mount\<close>,
  and the mount to \<^verbatim>\<open>aa\<close> stays. And with nothing at \<^verbatim>\<open>/m\<close>, when \<^verbatim>\<open>mount\<close> fails
  the one \<^verbatim>\<open>mount\<close> is issued and no mount is created.
\<close>

theorem ensureMount_failing_calls:
  "fromURLToKey (failing (CallStat ''/m'')) ''hyper://aa'' = Some ''aa''
   \<and> tree mounted_aa ''/m'' = Some \<lparr>isDirectory = True, mount = Some ''aa''\<rparr>
   \<and> filter is_tree_call
        (issued mounted_aa (ensureMount (failing (CallStat ''/m'')) ''/m'' ''hyper://aa'' mounted_aa))
        = [MountCall ''/m'' ''aa'']
   \<and> fromURLToKey (failing (CallUnmount ''/m'')) ''hyper://bb'' = Some ''bb''
   \<and> filter is_tree_call
        (issued mounted_aa (ensureMount (failing (CallUnmount ''/m'')) ''/m'' ''hyper://bb'' mounted_aa))
        = [UnmountCall ''/m'']
   \<and> tree (ensureMount (failing (CallUnmount ''/m'')) ''/m'' ''hyper://bb'' mounted_aa) ''/m''
        = Some \<lparr>isDirectory = True, mount = Some ''aa''\<rparr>
   \<and> tree state0 ''/m'' = None
   \<and> filter is_tree_call
        (issued state0 (ensureMount (failing (CallMount ''/m'' ''bb'')) ''/m'' ''hyper://bb'' state0))
        = [MountCall ''/m'' ''bb'']
   \<and> tree (ensureMount (failing (CallMount ''/m'' ''bb'')) ''/m'' ''hyper://bb'' state0) ''/m'' = None"
  by (simp add: ensureMount_def stat_def pda_stat_def pda_mount_def pda_unmount_def issued_def
        failing_def env1_def env0_def mounted_aa_def state0_def emit_def)

text \<open>
  Claim C5 as amended: the four cases, each when the calls of the drive that it goes
  through do not fail. For a URL that resolves to \<open>k\<close>: (1) nothing at the path: the only
  call that changes the tree is one \<^verbatim>\<open>mount(path, k)\<close>, and when that call does not fail
  the path then holds a mount to \<open>k\<close>; (2) a mount to another key, when \<^verbatim>\<open>stat\<close>,
  \<^verbatim>\<open>unmount\<close> and \<^verbatim>\<open>mount\<close> on the path do not fail: the calls are one
  \<^verbatim>\<open>unmount(path)\<close> followed by one \<^verbatim>\<open>mount(path, k)\<close>, and the path then holds a mount
  to \<open>k\<close>; (3) a mount to \<open>k\<close>, when \<^verbatim>\<open>stat\<close> on the path does not fail: the state is
  left as it is, so nothing is called or logged; (4) an entry that is no mount, when
  \<^verbatim>\<open>stat\<close> on the path does not fail: the warning is logged and nothing else changes.
\<close>

theorem ensureMount_cases:
  assumes "fromURLToKey env u = Some k"
  shows "(tree s p = None \<longrightarrow>
           filter is_tree_call (issued s (ensureMount env p u s)) = [MountCall p k]
           \<and> (\<not> call_fails env (CallMount p k) \<longrightarrow>
                tree (ensureMount env p u s) = (tree s)(p \<mapsto> \<lparr>isDirectory = True, mount = Some k\<rparr>)))
       \<and> (\<forall>st oldKey. tree s p = Some st \<and> mount st = Some oldKey \<and> oldKey \<noteq> k
             \<and> \<not> call_fails env (CallStat p) \<and> \<not> call_fails env (CallUnmount p)
             \<and> \<not> call_fails env (CallMount p k) \<longrightarrow>
           filter is_tree_call (issued s (ensureMount env p u s)) = [UnmountCall p, MountCall p k]
           \<and> tree (ensureMount env p u s) = (tree s)(p \<mapsto> \<lparr>isDirectory = True, mount = Some k\<rparr>))
       \<and> (\<forall>st. tree s p = Some st \<and> mount st = Some k \<and> \<not> call_fails env (CallStat p) \<longrightarrow>
             ensureMount env p u s = s)
       \<and> (\<forall>st. tree s p = Some st \<and> mount st = None \<and> \<not> call_fails env (CallStat p) \<longrightarrow>
           ensureMount env p u s = emit (LogError
             ''Warning! Filesystem expects a mount but an unexpected file exists at this location.'') s)"
proof (intro conjI)
  show "tree s p = None \<longrightarrow>
           filter is_tree_call (issued s (ensureMount env p u s)) = [MountCall p k]
           \<and> (\<not> call_fails env (CallMount p k) \<longrightarrow>
                tree (ensureMount env p u s) = (tree s)(p \<mapsto> \<lparr>isDirectory = True, mount = Some k\<rparr>))"
    using assms
    by (auto simp: ensureMount_def stat_def pda_stat_def pda_mount_def issued_def Let_def)
next
  show "\<forall>st oldKey. tree s p = Some st \<and> mount st = Some oldKey \<and> oldKey \<noteq> k
             \<and> \<not> call_fails env (CallStat p) \<and> \<not> call_fails env (CallUnmount p)
             \<and> \<not> call_fails env (CallMount p k) \<longrightarrow>
           filter is_tree_call (issued s (ensureMount env p u s)) = [UnmountCall p, MountCall p k]
           \<and> tree (ensureMount env p u s) = (tree s)(p \<mapsto> \<lparr>isDirectory = True, mount = Some k\<rparr>)"
    using assms
    by (auto simp: ensureMount_def stat_tree pda_mount_def pda_unmount_def issued_def Let_def)
next
  show "\<forall>st. tree s p = Some st \<and> mount st = Some k \<and> \<not> call_fails env (CallStat p) \<longrightarrow>
             ensureMount env p u s = s"
    using assms by (auto simp: ensureMount_def stat_tree Let_def)
next
  show "\<forall>st. tree s p = Some st \<and> mount st = None \<and> \<not> call_fails env (CallStat p) \<longrightarrow>
           ensureMount env p u s = emit (LogError
             ''Warning! Filesystem expects a mount but an unexpected file exists at this location.'') s"
    using assms by (auto simp: ensureMount_def stat_tree Let_def)
qed

text \<open>The four cases where no call fails, and the first case where \<^verbatim>\<open>stat\<close> fails.\<close>

theorem ensureMount_cases_witness:
  "fromURLToKey env1 ''hyper://bb'' = Some ''bb''
   \<and> filter is_tree_call (issued state0 (ensureMount env1 ''/m'' ''hyper://bb'' state0))
        = [MountCall ''/m'' ''bb'']
   \<and> tree (ensureMount env1 ''/m'' ''hyper://bb'' state0) ''/m''
        = Some \<lparr>isDirectory = True, mount = Some ''bb''\<rparr>
   \<and> filter is_tree_call (issued mounted_aa (ensureMount env1 ''/m'' ''hyper://bb'' mounted_aa))
        = [UnmountCall ''/m'', MountCall ''/m'' ''bb'']
   \<and> tree (ensureMount env1 ''/m'' ''hyper://bb'' mounted_aa) ''/m''
        = Some \<lparr>isDirectory = True, mount = Some ''bb''\<rparr>
   \<and> ensureMount env1 ''/m'' ''hyper://aa'' mounted_aa = mounted_aa
   \<and> ensureMount env1 ''/dir/report'' ''hyper://aa'' reports = emit (LogError
         ''Warning! Filesystem expects a mount but an unexpected file exists at this location.'') reports
   \<and> call_fails (failing (CallStat ''/m'')) (CallStat ''/m'')
   \<and> filter is_tree_call
        (issued state0 (ensureMount (failing (CallStat ''/m'')) ''/m'' ''hyper://bb'' state0))
        = [MountCall ''/m'' ''bb'']
   \<and> tree (ensureMount (failing (CallStat ''/m'')) ''/m'' ''hyper://bb'' state0) ''/m''
        = Some \<lparr>isDirectory = True, mount = Some ''bb''\<rparr>"
proof -
  have r: "fromURLToKey env1 ''hyper://bb'' = Some ''bb''" "fromURLToKey env1 ''hyper://aa'' = Some ''aa''"
    and nf: "\<And>c. \<not> call_fails env1 c"
    by (simp_all add: env1_def env0_def)
  have rf: "fromURLToKey (failing (CallStat ''/m'')) ''hyper://bb'' = Some ''bb''"
    and sf: "call_fails (failing (CallStat ''/m'')) (CallStat ''/m'')"
    and mf: "\<not> call_fails (failing (CallStat ''/m'')) (CallMount ''/m'' ''bb'')"
    by (simp_all add: failing_def env1_def env0_def)
  have t0: "tree state0 ''/m'' = None" by (simp add: state0_def)
  have t1: "tree mounted_aa ''/m'' = Some \<lparr>isDirectory = True, mount = Some ''aa''\<rparr>"
    by (simp add: mounted_aa_def)
  have t2: "tree reports ''/dir/report'' = Some file_stat" by (simp add: reports_def)
  show ?thesis
    using ensureMount_cases [of env1 "''hyper://bb''" "''bb''" state0 "''/m''", OF r(1)]
          ensureMount_cases [of env1 "''hyper://bb''" "''bb''" mounted_aa "''/m''", OF r(1)]
          ensureMount_cases [of env1 "''hyper://aa''" "''aa''" mounted_aa "''/m''", OF r(2)]
          ensureMount_cases [of env1 "''hyper://aa''" "''aa''" reports "''/dir/report''", OF r(2)]
          ensureMount_cases [of "failing (CallStat ''/m'')" "''hyper://bb''" "''bb''" state0 "''/m''", OF rf]
          r nf sf mf t0 t1 t2
    by (simp add: file_stat_def)
qed




subsection \<open>Removing a drive\<close>

text \<open>
  Claim C7. After \<^verbatim>\<open>removeDrive(url)\<close>, \<^verbatim>\<open>getDriveConfig(key)\<close> is to return not-found.
  The code does not achieve this for a drive whose manifest names the drive itself as its
  fork parent. From an empty registry, \<^verbatim>\<open>configDrive('hyper://dd')\<close> for such a drive (the
  label prompt answered with \<^verbatim>\<open>dev\<close>) completes and leaves two entries with the key
  \<^verbatim>\<open>dd\<close>: the parent is looked up before the new entry is pushed (lines 183 to 189), is not
  found, and is pushed as a bare entry, and then the new entry follows. \<^verbatim>\<open>removeDrive('hyper://dd')\<close>
  completes and removes one entry (\<^verbatim>\<open>findIndex\<close> and \<^verbatim>\<open>splice(driveIndex, 1)\<close>), and
  \<^verbatim>\<open>getDriveConfig('dd')\<close> still finds the other.
\<close>

theorem removeDrive_leaves_duplicate:
  "fst (configDrive env3 ''hyper://dd'' JUndefined state0) = Completed
   \<and> stringify_drives registered_dd
        = [(''dd'', None), (''dd'', Some \<lparr>fork_key = Some ''dd'', label = Some ''dev''\<rparr>)]
   \<and> fst (removeDrive env3 ''hyper://dd'' registered_dd) = Completed
   \<and> stringify_drives (snd (removeDrive env3 ''hyper://dd'' registered_dd))
        = [(''dd'', Some \<lparr>fork_key = Some ''dd'', label = Some ''dev''\<rparr>)]
   \<and> getDriveConfig ''dd'' (snd (removeDrive env3 ''hyper://dd'' registered_dd)) \<noteq> None"
  by (simp add: eval_defs registered_dd_def)

subsection \<open>Available names\<close>



subsection \<open>Listing the drives\<close>




subsection \<open>Seeding and a declined prompt\<close>

text \<open>
  Claim C10. When the call shows the fork-label prompt for a drive that is not writable and
  the prompt is declined, the events of the call are: the lock is taken, the drive is
  configured with announce and lookup both true, the prompt is shown, the lock is released.
  The replication setting stays after the call, although \<^verbatim>\<open>drives\<close> and the document are
  what they were.
\<close>

theorem configDrive_abort_keeps_seeding:
  assumes "Prompt prompt_message \<in> set (issued s (snd (configDrive env u forkOfArg s)))"
    and "declined (prompt env)"
    and "getOrLoadDrive env u = Some d"
    and "\<not> writable d"
  shows "issued s (snd (configDrive env u forkOfArg s))
           = [LockAcquire ''filesystem:drives'', ConfigureNetwork (drive_id d) True True,
              Prompt prompt_message, LockRelease ''filesystem:drives'']
       \<and> network (snd (configDrive env u forkOfArg s)) (drive_id d) = Some (True, True)
       \<and> fst (configDrive env u forkOfArg s) = ReturnedEarly
       \<and> drives (snd (configDrive env u forkOfArg s)) = drives s
       \<and> drives_json (snd (configDrive env u forkOfArg s)) = drives_json s"
proof -
  from assms(1,2) configDrive_no_prompt [of env u forkOfArg s]
  have early: "fst (configDrive env u forkOfArg s) = ReturnedEarly" by blast
  from configDrive_early [OF early] assms(3,4) show ?thesis
    by (auto simp: early issued_def)
qed

theorem configDrive_abort_keeps_seeding_witness:
  "Prompt prompt_message \<in> set (issued state0 (snd (configDrive env2 ''hyper://aa'' JUndefined state0)))
   \<and> declined (prompt env2)
   \<and> getOrLoadDrive env2 ''hyper://aa'' = Some fork_drive
   \<and> \<not> writable fork_drive
   \<and> network state0 ''aa'' = None
   \<and> network (snd (configDrive env2 ''hyper://aa'' JUndefined state0)) ''aa'' = Some (True, True)
   \<and> issued state0 (snd (configDrive env2 ''hyper://aa'' JUndefined state0))
        = [LockAcquire ''filesystem:drives'', ConfigureNetwork ''aa'' True True,
           Prompt prompt_message, LockRelease ''filesystem:drives'']
   \<and> drives (snd (configDrive env2 ''hyper://aa'' JUndefined state0)) = []
   \<and> drives_json (snd (configDrive env2 ''hyper://aa'' JUndefined state0)) = None"
proof -
  have p: "Prompt prompt_message \<in> set (issued state0 (snd (configDrive env2 ''hyper://aa'' JUndefined state0)))"
    by (simp add: eval_defs)
  have d: "declined (prompt env2)" by (simp add: env2_def)
  have l: "getOrLoadDrive env2 ''hyper://aa'' = Some fork_drive" by (simp add: env2_def)
  have w: "\<not> writable fork_drive" by (simp add: fork_drive_def)
  from configDrive_abort_keeps_seeding [OF p d l w] p d l w show ?thesis
    by (simp add: state0_def fork_drive_def)
qed

end
